theory Spec2Isabelle
  imports Complex_Main
begin

section \<open>The orientation service of Razr\<close>

text \<open>
  A shallow embedding of the class \<^verbatim>\<open>OrientationService\<close>: the component that turns
  the raw device-orientation (web) or device-motion (mobile) sample stream into a
  debounced boolean "flipped" signal and notifies the registered callbacks.

  Conventions of the model.
  \<^item> The object is a record of its private fields; every method takes the record
    and returns the updated one.
  \<^item> A callback is an opaque value of type \<open>'cb\<close> (its identity). Invoking the
    callback \<open>cb\<close> with the argument \<open>v\<close> is recorded as the pair \<open>(cb, v)\<close> in the
    list of invocations a method returns, in the order the calls are made. Callbacks
    are taken to return normally and not to call back into the service.
  \<^item> A JavaScript number is a \<open>real\<close>: arithmetic is exact, and \<^verbatim>\<open>NaN\<close> and the
    infinities are outside the model. The two stability counters only ever hold
    integers and are \<open>int\<close>.
  \<^item> \<^verbatim>\<open>null\<close> and \<^verbatim>\<open>undefined\<close> are \<open>None\<close>. The fields \<^verbatim>\<open>subscription\<close> and
    \<^verbatim>\<open>webOrientationHandler\<close> hold handles the class never inspects: the model
    keeps whether they are set (\<open>True\<close>) or \<^verbatim>\<open>null\<close> (\<open>False\<close>).
  \<^item> Registering a handler with the platform (\<^verbatim>\<open>window.addEventListener\<close>,
    \<^verbatim>\<open>DeviceMotion.addListener\<close>) acts on the platform, not on the fields. A
    sample is delivered by applying the handler to it.
\<close>

subsection \<open>State\<close>

record 'cb orientation_service =
  callbacks :: "'cb list"
  isFlipped :: bool
  subscription :: bool
  webOrientationHandler :: bool
  emaZ :: "real option"
  alpha :: real
  flipEnterThreshold :: real
  flipExitThreshold :: real
  stableRequired :: int
  flipStableCount :: int
  unflipStableCount :: int

type_synonym 'cb invocations = "('cb \<times> bool) list"

text \<open>What the class reads of its platform: \<^verbatim>\<open>Platform.OS === 'web'\<close>, and
  \<^verbatim>\<open>typeof window !== 'undefined' && 'DeviceOrientationEvent' in window\<close>.\<close>

record platform =
  osIsWeb :: bool
  hasDeviceOrientationEvent :: bool

text \<open>The payload of a device-motion event, as far as the listener reads it: the two
  acceleration objects, each absent or carrying a field \<^verbatim>\<open>z\<close> that is a number
  (\<open>Some\<close>) or anything else (\<open>None\<close>).\<close>

datatype acceleration_data = AccelerationData (accZ: "real option")

record motion =
  accelerationIncludingGravity :: "acceleration_data option"
  acceleration :: "acceleration_data option"

text \<open>A sample: a device-orientation event with its \<^verbatim>\<open>beta\<close> (a number or \<^verbatim>\<open>null\<close>),
  or a device-motion event.\<close>

datatype sample = DeviceOrientation "real option" | DeviceMotion motion

subsection \<open>Callbacks\<close>

definition addCallback :: "'cb \<Rightarrow> 'cb orientation_service \<Rightarrow> 'cb orientation_service" where
  "addCallback callback s = s\<lparr>callbacks := callbacks s @ [callback]\<rparr>"

definition removeCallback :: "'cb \<Rightarrow> 'cb orientation_service \<Rightarrow> 'cb orientation_service" where
  "removeCallback callback s = s\<lparr>callbacks := filter (\<lambda>cb. cb \<noteq> callback) (callbacks s)\<rparr>"

definition notifyCallbacks ::
  "bool \<Rightarrow> 'cb orientation_service \<Rightarrow> 'cb orientation_service \<times> 'cb invocations" where
  "notifyCallbacks v s =
     (if isFlipped s \<noteq> v
      then (s\<lparr>isFlipped := v\<rparr>, map (\<lambda>callback. (callback, v)) (callbacks s))
      else (s, []))"

subsection \<open>The web handler (tilt angle)\<close>

definition startWebOrientation_handler ::
  "real option \<Rightarrow> 'cb orientation_service \<Rightarrow> 'cb orientation_service \<times> 'cb invocations" where
  "startWebOrientation_handler beta s =
     (case beta of
        None \<Rightarrow> (s, [])
      | Some b \<Rightarrow>
          (let absBeta = \<bar>b\<bar>;
               enterDeg = 150;
               exitDeg = 30;
               s1 = (if absBeta > enterDeg
                     then s\<lparr>flipStableCount := flipStableCount s + 1, unflipStableCount := 0\<rparr>
                     else if absBeta < exitDeg
                     then s\<lparr>unflipStableCount := unflipStableCount s + 1, flipStableCount := 0\<rparr>
                     else s\<lparr>flipStableCount := max 0 (flipStableCount s - 1),
                            unflipStableCount := max 0 (unflipStableCount s - 1)\<rparr>)
           in if flipStableCount s1 \<ge> stableRequired s1 then notifyCallbacks True s1
              else if unflipStableCount s1 \<ge> stableRequired s1 then notifyCallbacks False s1
              else (s1, [])))"

subsection \<open>The mobile listener (filtered z acceleration)\<close>

text \<open>\<^verbatim>\<open>motion.accelerationIncludingGravity ?? motion.acceleration\<close>, then the guard
  \<^verbatim>\<open>if (!accAny || typeof accAny.z !== 'number') return\<close>: the usable \<^verbatim>\<open>z\<close>, if any.\<close>

definition motionZ :: "motion \<Rightarrow> real option" where
  "motionZ m =
     (case (case accelerationIncludingGravity m of Some a \<Rightarrow> Some a | None \<Rightarrow> acceleration m) of
        None \<Rightarrow> None
      | Some accAny \<Rightarrow> accZ accAny)"

text \<open>The two statements on \<^verbatim>\<open>emaZ\<close>: it is initialised to \<^verbatim>\<open>z\<close> when still
  \<^verbatim>\<open>null\<close>, then updated to \<^verbatim>\<open>alpha * z + (1 - alpha) * emaZ\<close>.\<close>

definition emaUpdate :: "'cb orientation_service \<Rightarrow> real \<Rightarrow> real" where
  "emaUpdate s z =
     alpha s * z + (1 - alpha s) * (case emaZ s of None \<Rightarrow> z | Some e \<Rightarrow> e)"

definition startMobileOrientation_listener ::
  "motion \<Rightarrow> 'cb orientation_service \<Rightarrow> 'cb orientation_service \<times> 'cb invocations" where
  "startMobileOrientation_listener m s =
     (case motionZ m of
        None \<Rightarrow> (s, [])
      | Some z \<Rightarrow>
          (let e = emaUpdate s z;
               s0 = s\<lparr>emaZ := Some e\<rparr>;
               s1 = (if e < flipEnterThreshold s0
                     then s0\<lparr>flipStableCount := flipStableCount s0 + 1, unflipStableCount := 0\<rparr>
                     else if e > flipExitThreshold s0
                     then s0\<lparr>unflipStableCount := unflipStableCount s0 + 1, flipStableCount := 0\<rparr>
                     else s0\<lparr>flipStableCount := max 0 (flipStableCount s0 - 1),
                             unflipStableCount := max 0 (unflipStableCount s0 - 1)\<rparr>)
           in if flipStableCount s1 \<ge> stableRequired s1 then notifyCallbacks True s1
              else if unflipStableCount s1 \<ge> stableRequired s1 then notifyCallbacks False s1
              else (s1, [])))"

subsection \<open>Construction, query and teardown\<close>

definition startWebOrientation :: "platform \<Rightarrow> 'cb orientation_service \<Rightarrow> 'cb orientation_service" where
  "startWebOrientation p s =
     (if hasDeviceOrientationEvent p then s\<lparr>webOrientationHandler := True\<rparr> else s)"

definition startMobileOrientation :: "'cb orientation_service \<Rightarrow> 'cb orientation_service" where
  "startMobileOrientation s = s\<lparr>subscription := True\<rparr>"

definition startListening :: "platform \<Rightarrow> 'cb orientation_service \<Rightarrow> 'cb orientation_service" where
  "startListening p s = (if osIsWeb p then startWebOrientation p s else startMobileOrientation s)"

text \<open>The constructor: the field initialisers of the class, then \<^verbatim>\<open>startListening()\<close>.
  It takes no argument.\<close>

definition OrientationService_constructor :: "platform \<Rightarrow> 'cb orientation_service" where
  "OrientationService_constructor p =
     startListening p
       \<lparr>callbacks = [], isFlipped = False, subscription = False, webOrientationHandler = False,
        emaZ = None, alpha = 0.25, flipEnterThreshold = - 0.6, flipExitThreshold = - 0.2,
        stableRequired = 3, flipStableCount = 0, unflipStableCount = 0\<rparr>"

definition getCurrentOrientation :: "'cb orientation_service \<Rightarrow> bool" where
  "getCurrentOrientation s = isFlipped s"

definition destroy :: "platform \<Rightarrow> 'cb orientation_service \<Rightarrow> 'cb orientation_service" where
  "destroy p s =
     (let s1 = (if osIsWeb p \<and> webOrientationHandler s then s\<lparr>webOrientationHandler := False\<rparr>
                else if subscription s then s\<lparr>subscription := False\<rparr>
                else s)
      in s1\<lparr>callbacks := []\<rparr>)"

subsection \<open>The two steps the handlers share\<close>

text \<open>
  Both handlers end in the same two statements, written out in each of them: the
  three-way update of the stability counters, on the handler's own enter and exit
  conditions, and the publication once a counter has reached \<^verbatim>\<open>stableRequired\<close>.
  The two functions below name these statements; the handlers above are shown to be their
  composition, and the proofs work with them.

  \<^verbatim>\<open>if (enter) { flipStableCount += 1; unflipStableCount = 0 }
  else if (exit) { unflipStableCount += 1; flipStableCount = 0 }
  else { flipStableCount = Math.max(0, flipStableCount - 1);
         unflipStableCount = Math.max(0, unflipStableCount - 1) }\<close>
\<close>

definition updateStableCounts ::
  "bool \<Rightarrow> bool \<Rightarrow> 'cb orientation_service \<Rightarrow> 'cb orientation_service" where
  "updateStableCounts enter exit s =
     (if enter
      then s\<lparr>flipStableCount := flipStableCount s + 1, unflipStableCount := 0\<rparr>
      else if exit
      then s\<lparr>unflipStableCount := unflipStableCount s + 1, flipStableCount := 0\<rparr>
      else s\<lparr>flipStableCount := max 0 (flipStableCount s - 1),
             unflipStableCount := max 0 (unflipStableCount s - 1)\<rparr>)"

text \<open>
  \<^verbatim>\<open>if (flipStableCount >= stableRequired) notifyCallbacks(true)
  else if (unflipStableCount >= stableRequired) notifyCallbacks(false)\<close>
\<close>

definition notifyIfStable ::
  "'cb orientation_service \<Rightarrow> 'cb orientation_service \<times> 'cb invocations" where
  "notifyIfStable s =
     (if flipStableCount s \<ge> stableRequired s then notifyCallbacks True s
      else if unflipStableCount s \<ge> stableRequired s then notifyCallbacks False s
      else (s, []))"

subsection \<open>Sample streams\<close>

text \<open>Delivering one sample applies the handler of its kind. A stream of samples is
  delivered one after the other, each handler call completing before the next:
  \<open>run\<close> gives the service after the stream, \<open>trace\<close> the invocations each sample
  caused.\<close>

fun onSample ::
  "sample \<Rightarrow> 'cb orientation_service \<Rightarrow> 'cb orientation_service \<times> 'cb invocations" where
  "onSample (DeviceOrientation beta) s = startWebOrientation_handler beta s"
| "onSample (DeviceMotion m) s = startMobileOrientation_listener m s"

fun run :: "sample list \<Rightarrow> 'cb orientation_service \<Rightarrow> 'cb orientation_service" where
  "run [] s = s"
| "run (x # xs) s = run xs (fst (onSample x s))"

fun trace :: "sample list \<Rightarrow> 'cb orientation_service \<Rightarrow> 'cb invocations list" where
  "trace [] s = []"
| "trace (x # xs) s = snd (onSample x s) # trace xs (fst (onSample x s))"

subsection \<open>Reachable services\<close>

text \<open>The services a program can hold: the constructor yields one, and registering or
  removing a callback, delivering a sample and tearing down lead from one to the next. The
  class has no other method and no assignment to a field outside these.\<close>

inductive reachableService :: "'cb orientation_service \<Rightarrow> bool" where
  constructed: "reachableService (OrientationService_constructor p)"
| registered: "reachableService s \<Longrightarrow> reachableService (addCallback callback s)"
| removed: "reachableService s \<Longrightarrow> reachableService (removeCallback callback s)"
| sampled: "reachableService s \<Longrightarrow> reachableService (fst (onSample x s))"
| destroyed: "reachableService s \<Longrightarrow> reachableService (destroy p s)"

subsection \<open>The branch conditions of the handlers\<close>

text \<open>The value a handler classifies: \<^verbatim>\<open>absBeta\<close> in the web handler, the updated
  \<^verbatim>\<open>emaZ\<close> in the mobile listener; \<open>None\<close> for a sample the handler drops.\<close>

fun classifiedValue :: "sample \<Rightarrow> 'cb orientation_service \<Rightarrow> real option" where
  "classifiedValue (DeviceOrientation beta) s = map_option abs beta"
| "classifiedValue (DeviceMotion m) s = map_option (emaUpdate s) (motionZ m)"

text \<open>The condition of the first branch (\<^verbatim>\<open>absBeta > enterDeg\<close>,
  \<^verbatim>\<open>this.emaZ < this.flipEnterThreshold\<close>) for a sample delivered in a state.\<close>

fun enterCondition :: "sample \<Rightarrow> 'cb orientation_service \<Rightarrow> bool" where
  "enterCondition (DeviceOrientation beta) s =
     (case classifiedValue (DeviceOrientation beta) s of None \<Rightarrow> False | Some v \<Rightarrow> v > 150)"
| "enterCondition (DeviceMotion m) s =
     (case classifiedValue (DeviceMotion m) s of None \<Rightarrow> False
      | Some v \<Rightarrow> v < flipEnterThreshold s)"

text \<open>The classified value lies strictly between the exit and the enter threshold.\<close>

fun inDeadZone :: "sample \<Rightarrow> 'cb orientation_service \<Rightarrow> bool" where
  "inDeadZone (DeviceOrientation beta) s =
     (case classifiedValue (DeviceOrientation beta) s of None \<Rightarrow> False
      | Some v \<Rightarrow> 30 < v \<and> v < 150)"
| "inDeadZone (DeviceMotion m) s =
     (case classifiedValue (DeviceMotion m) s of None \<Rightarrow> False
      | Some v \<Rightarrow> flipEnterThreshold s < v \<and> v < flipExitThreshold s)"

text \<open>Every sample of a stream is classified into the dead zone, each in the state the
  samples before it have left.\<close>

fun allInDeadZone :: "sample list \<Rightarrow> 'cb orientation_service \<Rightarrow> bool" where
  "allInDeadZone [] s = True"
| "allInDeadZone (x # xs) s = (inDeadZone x s \<and> allInDeadZone xs (fst (onSample x s)))"

text \<open>The filter has settled on the sample: delivering the sample leaves the classified
  value where it is. It holds before the first sample (\<^verbatim>\<open>emaZ\<close> still \<^verbatim>\<open>null\<close>) and
  of every tilt sample.\<close>

fun emaSettled :: "sample \<Rightarrow> 'cb orientation_service \<Rightarrow> bool" where
  "emaSettled (DeviceOrientation beta) s = True"
| "emaSettled (DeviceMotion m) s =
     (case motionZ m of None \<Rightarrow> True | Some z \<Rightarrow> emaZ s = None \<or> emaZ s = Some z)"

section \<open>Facts about the steps\<close>

subsection \<open>The handlers as compositions of the shared steps\<close>

lemma startWebOrientation_handler_steps:
  "startWebOrientation_handler beta s =
     (case beta of
        None \<Rightarrow> (s, [])
      | Some b \<Rightarrow> notifyIfStable (updateStableCounts (\<bar>b\<bar> > 150) (\<bar>b\<bar> < 30) s))"
  by (simp add: startWebOrientation_handler_def notifyIfStable_def updateStableCounts_def Let_def
        split: option.splits)

lemma startMobileOrientation_listener_steps:
  "startMobileOrientation_listener m s =
     (case motionZ m of
        None \<Rightarrow> (s, [])
      | Some z \<Rightarrow>
          notifyIfStable
            (updateStableCounts (emaUpdate s z < flipEnterThreshold s)
               (emaUpdate s z > flipExitThreshold s) (s\<lparr>emaZ := Some (emaUpdate s z)\<rparr>)))"
  by (simp add: startMobileOrientation_listener_def notifyIfStable_def updateStableCounts_def
        Let_def split: option.splits)


subsection \<open>Fields each step leaves alone\<close>

lemma notifyIfStable_fields:
  "callbacks (fst (notifyIfStable s)) = callbacks s"
  "stableRequired (fst (notifyIfStable s)) = stableRequired s"
  "alpha (fst (notifyIfStable s)) = alpha s"
  "flipEnterThreshold (fst (notifyIfStable s)) = flipEnterThreshold s"
  "flipExitThreshold (fst (notifyIfStable s)) = flipExitThreshold s"
  "subscription (fst (notifyIfStable s)) = subscription s"
  "webOrientationHandler (fst (notifyIfStable s)) = webOrientationHandler s"
  "emaZ (fst (notifyIfStable s)) = emaZ s"
  "flipStableCount (fst (notifyIfStable s)) = flipStableCount s"
  "unflipStableCount (fst (notifyIfStable s)) = unflipStableCount s"
  by (simp_all add: notifyIfStable_def notifyCallbacks_def)

lemma notifyIfStable_isFlipped:
  "isFlipped (fst (notifyIfStable s)) =
     (if stableRequired s \<le> flipStableCount s then True
      else if stableRequired s \<le> unflipStableCount s then False else isFlipped s)"
  by (simp add: notifyIfStable_def notifyCallbacks_def)

lemma notifyIfStable_out:
  "snd (notifyIfStable s) =
     (if stableRequired s \<le> flipStableCount s
      then (if isFlipped s then [] else map (\<lambda>callback. (callback, True)) (callbacks s))
      else if stableRequired s \<le> unflipStableCount s
      then (if isFlipped s then map (\<lambda>callback. (callback, False)) (callbacks s) else [])
      else [])"
  by (simp add: notifyIfStable_def notifyCallbacks_def)

lemma updateStableCounts_fields:
  "callbacks (updateStableCounts en ex s) = callbacks s"
  "stableRequired (updateStableCounts en ex s) = stableRequired s"
  "alpha (updateStableCounts en ex s) = alpha s"
  "flipEnterThreshold (updateStableCounts en ex s) = flipEnterThreshold s"
  "flipExitThreshold (updateStableCounts en ex s) = flipExitThreshold s"
  "subscription (updateStableCounts en ex s) = subscription s"
  "webOrientationHandler (updateStableCounts en ex s) = webOrientationHandler s"
  "emaZ (updateStableCounts en ex s) = emaZ s"
  "isFlipped (updateStableCounts en ex s) = isFlipped s"
  by (simp_all add: updateStableCounts_def)

lemma updateStableCounts_counts:
  "flipStableCount (updateStableCounts en ex s) =
     (if en then flipStableCount s + 1 else if ex then 0 else max 0 (flipStableCount s - 1))"
  "unflipStableCount (updateStableCounts en ex s) =
     (if en then 0 else if ex then unflipStableCount s + 1 else max 0 (unflipStableCount s - 1))"
  by (simp_all add: updateStableCounts_def)

lemmas step_simps = notifyIfStable_fields notifyIfStable_isFlipped notifyIfStable_out
  updateStableCounts_fields updateStableCounts_counts

lemmas handler_defs = startWebOrientation_handler_steps startMobileOrientation_listener_steps Let_def

lemma onSample_config:
  "callbacks (fst (onSample x s)) = callbacks s"
  "stableRequired (fst (onSample x s)) = stableRequired s"
  "alpha (fst (onSample x s)) = alpha s"
  "flipEnterThreshold (fst (onSample x s)) = flipEnterThreshold s"
  "flipExitThreshold (fst (onSample x s)) = flipExitThreshold s"
  "subscription (fst (onSample x s)) = subscription s"
  "webOrientationHandler (fst (onSample x s)) = webOrientationHandler s"
  by (cases x; simp add: handler_defs step_simps split: option.splits)+

lemma onSample_no_callbacks: "callbacks s = [] \<Longrightarrow> snd (onSample x s) = []"
  by (cases x; simp add: handler_defs step_simps split: option.splits)

lemma trace_no_callbacks: "callbacks s = [] \<Longrightarrow> trace xs s = replicate (length xs) []"
  by (induction xs arbitrary: s) (simp_all add: onSample_no_callbacks onSample_config)

lemma destroy_callbacks: "callbacks (destroy p s) = []"
  by (simp add: destroy_def Let_def)

lemma run_append: "run (xs @ ys) s = run ys (run xs s)"
  by (induction xs arbitrary: s) simp_all

lemma trace_append: "trace (xs @ ys) s = trace xs s @ trace ys (run xs s)"
  by (induction xs arbitrary: s) simp_all

lemma run_config:
  "callbacks (run xs s) = callbacks s"
  "stableRequired (run xs s) = stableRequired s"
  "alpha (run xs s) = alpha s"
  "flipEnterThreshold (run xs s) = flipEnterThreshold s"
  "flipExitThreshold (run xs s) = flipExitThreshold s"
  by (induction xs arbitrary: s) (simp_all add: onSample_config)

subsection \<open>The invariant of the stability counters\<close>

lemma onSample_counts_cases:
  "(flipStableCount (fst (onSample x s)) = flipStableCount s
      \<and> unflipStableCount (fst (onSample x s)) = unflipStableCount s)
   \<or> (flipStableCount (fst (onSample x s)) = flipStableCount s + 1
      \<and> unflipStableCount (fst (onSample x s)) = 0)
   \<or> (flipStableCount (fst (onSample x s)) = 0
      \<and> unflipStableCount (fst (onSample x s)) = unflipStableCount s + 1)
   \<or> (flipStableCount (fst (onSample x s)) = max 0 (flipStableCount s - 1)
      \<and> unflipStableCount (fst (onSample x s)) = max 0 (unflipStableCount s - 1))"
  by (cases x; simp add: handler_defs step_simps split: option.splits)

lemma counters_step:
  assumes "0 \<le> flipStableCount s" "0 \<le> unflipStableCount s"
    "flipStableCount s = 0 \<or> unflipStableCount s = 0"
  shows "0 \<le> flipStableCount (fst (onSample x s))
     \<and> 0 \<le> unflipStableCount (fst (onSample x s))
     \<and> (flipStableCount (fst (onSample x s)) = 0 \<or> unflipStableCount (fst (onSample x s)) = 0)
     \<and> (flipStableCount (fst (onSample x s)) \<le> flipStableCount s
          \<or> flipStableCount (fst (onSample x s)) = flipStableCount s + 1
            \<and> unflipStableCount (fst (onSample x s)) = 0)
     \<and> (unflipStableCount (fst (onSample x s)) \<le> unflipStableCount s
          \<or> unflipStableCount (fst (onSample x s)) = unflipStableCount s + 1
            \<and> flipStableCount (fst (onSample x s)) = 0)"
proof -
  let ?f = "flipStableCount (fst (onSample x s))"
  let ?u = "unflipStableCount (fst (onSample x s))"
  consider (dropped) "?f = flipStableCount s" "?u = unflipStableCount s"
    | (enter) "?f = flipStableCount s + 1" "?u = 0"
    | (exit) "?f = 0" "?u = unflipStableCount s + 1"
    | (decay) "?f = max 0 (flipStableCount s - 1)" "?u = max 0 (unflipStableCount s - 1)"
    using onSample_counts_cases [of x s] by blast
  then show ?thesis
  proof cases
    case dropped
    with assms show ?thesis by simp
  next
    case enter
    with assms show ?thesis by simp
  next
    case exit
    with assms show ?thesis by simp
  next
    case decay
    from assms(3) show ?thesis
    proof
      assume "flipStableCount s = 0"
      with assms decay show ?thesis by (simp add: max_def)
    next
      assume "unflipStableCount s = 0"
      with assms decay show ?thesis by (simp add: max_def)
    qed
  qed
qed

lemma counters_run:
  assumes "0 \<le> flipStableCount s" "0 \<le> unflipStableCount s"
    "flipStableCount s = 0 \<or> unflipStableCount s = 0"
  shows "0 \<le> flipStableCount (run xs s) \<and> 0 \<le> unflipStableCount (run xs s)
     \<and> (flipStableCount (run xs s) = 0 \<or> unflipStableCount (run xs s) = 0)"
  using assms
proof (induction xs arbitrary: s)
  case Nil
  then show ?case by simp
next
  case (Cons x xs)
  from counters_step [OF Cons.prems, of x]
  have "0 \<le> flipStableCount (fst (onSample x s))" "0 \<le> unflipStableCount (fst (onSample x s))"
    "flipStableCount (fst (onSample x s)) = 0 \<or> unflipStableCount (fst (onSample x s)) = 0"
    by blast+
  from Cons.IH [OF this] show ?case by simp
qed

subsection \<open>The enter branch and the dead zone\<close>

lemma onSample_enter:
  assumes "enterCondition x s"
  obtains e where "onSample x s =
     notifyIfStable (s\<lparr>emaZ := e, flipStableCount := flipStableCount s + 1, unflipStableCount := 0\<rparr>)"
proof (cases x)
  case (DeviceOrientation beta)
  with assms obtain b where "beta = Some b" "150 < \<bar>b\<bar>"
    by (auto split: option.splits)
  with DeviceOrientation have "onSample x s =
     notifyIfStable (s\<lparr>emaZ := emaZ s, flipStableCount := flipStableCount s + 1, unflipStableCount := 0\<rparr>)"
    by (simp add: startWebOrientation_handler_steps updateStableCounts_def)
  then show ?thesis by (rule that)
next
  case (DeviceMotion m)
  with assms obtain z where "motionZ m = Some z" "emaUpdate s z < flipEnterThreshold s"
    by (auto split: option.splits)
  with DeviceMotion have "onSample x s =
     notifyIfStable (s\<lparr>emaZ := Some (emaUpdate s z), flipStableCount := flipStableCount s + 1, unflipStableCount := 0\<rparr>)"
    by (simp add: startMobileOrientation_listener_steps updateStableCounts_def)
  then show ?thesis by (rule that)
qed

lemma onSample_dead:
  assumes "inDeadZone x s"
  obtains e where "onSample x s =
     notifyIfStable (s\<lparr>emaZ := e, flipStableCount := max 0 (flipStableCount s - 1),
         unflipStableCount := max 0 (unflipStableCount s - 1)\<rparr>)"
proof (cases x)
  case (DeviceOrientation beta)
  with assms obtain b where "beta = Some b" "30 < \<bar>b\<bar>" "\<bar>b\<bar> < 150"
    by (auto split: option.splits)
  with DeviceOrientation have "onSample x s =
     notifyIfStable (s\<lparr>emaZ := emaZ s, flipStableCount := max 0 (flipStableCount s - 1),
         unflipStableCount := max 0 (unflipStableCount s - 1)\<rparr>)"
    by (simp add: startWebOrientation_handler_steps updateStableCounts_def)
  then show ?thesis by (rule that)
next
  case (DeviceMotion m)
  with assms obtain z where "motionZ m = Some z"
    "flipEnterThreshold s < emaUpdate s z" "emaUpdate s z < flipExitThreshold s"
    by (auto split: option.splits)
  with DeviceMotion have "onSample x s =
     notifyIfStable (s\<lparr>emaZ := Some (emaUpdate s z), flipStableCount := max 0 (flipStableCount s - 1),
         unflipStableCount := max 0 (unflipStableCount s - 1)\<rparr>)"
    by (simp add: startMobileOrientation_listener_steps updateStableCounts_def)
  then show ?thesis by (rule that)
qed

lemma enter_step:
  assumes "enterCondition x s" "0 < stableRequired s"
  shows "flipStableCount (fst (onSample x s)) = flipStableCount s + 1"
    and "unflipStableCount (fst (onSample x s)) = 0"
    and "isFlipped (fst (onSample x s)) = (isFlipped s \<or> stableRequired s \<le> flipStableCount s + 1)"
    and "snd (onSample x s) =
       (if stableRequired s \<le> flipStableCount s + 1 \<and> \<not> isFlipped s
        then map (\<lambda>callback. (callback, True)) (callbacks s) else [])"
proof -
  from assms(1) obtain e where e: "onSample x s =
     notifyIfStable (s\<lparr>emaZ := e, flipStableCount := flipStableCount s + 1, unflipStableCount := 0\<rparr>)"
    by (rule onSample_enter)
  show "flipStableCount (fst (onSample x s)) = flipStableCount s + 1"
    by (simp add: e notifyIfStable_fields)
  show "unflipStableCount (fst (onSample x s)) = 0"
    by (simp add: e notifyIfStable_fields)
  show "isFlipped (fst (onSample x s)) = (isFlipped s \<or> stableRequired s \<le> flipStableCount s + 1)"
    using assms(2) by (simp add: e notifyIfStable_isFlipped)
  show "snd (onSample x s) =
       (if stableRequired s \<le> flipStableCount s + 1 \<and> \<not> isFlipped s
        then map (\<lambda>callback. (callback, True)) (callbacks s) else [])"
    using assms(2) by (simp add: e notifyIfStable_out)
qed

lemma dead_step:
  assumes "inDeadZone x s" "flipStableCount s = 0" "unflipStableCount s = 0" "0 < stableRequired s"
  shows "flipStableCount (fst (onSample x s)) = 0"
    and "unflipStableCount (fst (onSample x s)) = 0"
    and "isFlipped (fst (onSample x s)) = isFlipped s"
    and "snd (onSample x s) = []"
proof -
  from assms(1) obtain e where e: "onSample x s =
     notifyIfStable (s\<lparr>emaZ := e, flipStableCount := max 0 (flipStableCount s - 1),
         unflipStableCount := max 0 (unflipStableCount s - 1)\<rparr>)"
    by (rule onSample_dead)
  show "flipStableCount (fst (onSample x s)) = 0"
    using assms(2) by (simp add: e notifyIfStable_fields)
  show "unflipStableCount (fst (onSample x s)) = 0"
    using assms(3) by (simp add: e notifyIfStable_fields)
  show "isFlipped (fst (onSample x s)) = isFlipped s"
    using assms(2-4) by (simp add: e notifyIfStable_isFlipped)
  show "snd (onSample x s) = []"
    using assms(2-4) by (simp add: e notifyIfStable_out)
qed

lemma dead_decay:
  assumes "inDeadZone x t"
  shows "flipStableCount (fst (onSample x t)) = max 0 (flipStableCount t - 1)
     \<and> unflipStableCount (fst (onSample x t)) = max 0 (unflipStableCount t - 1)"
proof -
  from assms obtain e where e: "onSample x t =
     notifyIfStable (t\<lparr>emaZ := e, flipStableCount := max 0 (flipStableCount t - 1),
         unflipStableCount := max 0 (unflipStableCount t - 1)\<rparr>)"
    by (rule onSample_dead)
  show ?thesis
    by (simp add: e notifyIfStable_fields)
qed

lemma enter_settled:
  assumes "enterCondition x s" "emaSettled x s"
  shows "enterCondition x (fst (onSample x s)) \<and> emaSettled x (fst (onSample x s))"
proof (cases x)
  case (DeviceOrientation beta)
  with assms show ?thesis by simp
next
  case (DeviceMotion m)
  with assms obtain z where z: "motionZ m = Some z" and lt: "emaUpdate s z < flipEnterThreshold s"
    by (auto split: option.splits)
  from z assms(2) DeviceMotion have "emaZ s = None \<or> emaZ s = Some z"
    by simp
  then have fixed: "emaUpdate s z = z"
    by (auto simp: emaUpdate_def algebra_simps)
  have st: "fst (onSample x s) = fst (notifyIfStable
     (s\<lparr>emaZ := Some z, flipStableCount := flipStableCount s + 1, unflipStableCount := 0\<rparr>))"
    using DeviceMotion z lt fixed
    by (simp add: startMobileOrientation_listener_steps updateStableCounts_def)
  have "emaUpdate (fst (onSample x s)) z = z"
    by (simp add: st emaUpdate_def notifyIfStable_fields algebra_simps)
  moreover have "flipEnterThreshold (fst (onSample x s)) = flipEnterThreshold s"
    by (rule onSample_config)
  moreover have "emaZ (fst (onSample x s)) = Some z"
    by (simp add: st notifyIfStable_fields)
  ultimately show ?thesis
    using DeviceMotion z lt fixed by simp
qed

lemma enter_run_below:
  assumes "enterCondition x s" "emaSettled x s" "\<not> isFlipped s" "0 < stableRequired s"
    "flipStableCount s + int j < stableRequired s"
  shows "trace (replicate j x) s = replicate j []
     \<and> flipStableCount (run (replicate j x) s) = flipStableCount s + int j
     \<and> \<not> isFlipped (run (replicate j x) s)
     \<and> enterCondition x (run (replicate j x) s)
     \<and> emaSettled x (run (replicate j x) s)"
  using assms
proof (induction j arbitrary: s)
  case 0
  then show ?case by simp
next
  case (Suc j)
  let ?t = "fst (onSample x s)"
  from Suc.prems have below: "\<not> stableRequired s \<le> flipStableCount s + 1"
    by simp
  have t1: "enterCondition x ?t" "emaSettled x ?t"
    using enter_settled [OF Suc.prems(1,2)] by simp_all
  have t2: "\<not> isFlipped ?t"
    using Suc.prems(3) below by (simp add: enter_step(3) [OF Suc.prems(1,4)])
  have t3: "0 < stableRequired ?t"
    using Suc.prems(4) by (simp add: onSample_config)
  have t4: "flipStableCount ?t = flipStableCount s + 1"
    by (rule enter_step(1) [OF Suc.prems(1,4)])
  have t5: "flipStableCount ?t + int j < stableRequired ?t"
    using Suc.prems(5) t4 by (simp add: onSample_config)
  have out: "snd (onSample x s) = []"
    using below by (simp add: enter_step(4) [OF Suc.prems(1,4)])
  from Suc.IH [OF t1 t2 t3 t5] out t4 show ?case
    by simp
qed

lemma enter_run_flipped:
  assumes "enterCondition x s" "emaSettled x s" "isFlipped s" "0 < stableRequired s"
  shows "trace (replicate k x) s = replicate k []"
  using assms
proof (induction k arbitrary: s)
  case 0
  then show ?case by simp
next
  case (Suc k)
  let ?t = "fst (onSample x s)"
  have t1: "enterCondition x ?t" "emaSettled x ?t"
    using enter_settled [OF Suc.prems(1,2)] by simp_all
  have t2: "isFlipped ?t"
    using Suc.prems(3) by (simp add: enter_step(3) [OF Suc.prems(1,4)])
  have t3: "0 < stableRequired ?t"
    using Suc.prems(4) by (simp add: onSample_config)
  have out: "snd (onSample x s) = []"
    using Suc.prems(3) by (simp add: enter_step(4) [OF Suc.prems(1,4)])
  from Suc.IH [OF t1 t2 t3] out show ?case
    by simp
qed

lemma dead_run:
  assumes "allInDeadZone xs s" "flipStableCount s = 0" "unflipStableCount s = 0"
    "0 < stableRequired s"
  shows "trace xs s = replicate (length xs) []
     \<and> isFlipped (run xs s) = isFlipped s
     \<and> flipStableCount (run xs s) = 0 \<and> unflipStableCount (run xs s) = 0"
  using assms
proof (induction xs arbitrary: s)
  case Nil
  then show ?case by simp
next
  case (Cons x xs)
  from Cons.prems have d: "inDeadZone x s" and rest: "allInDeadZone xs (fst (onSample x s))"
    by simp_all
  note st = dead_step [OF d Cons.prems(2,3,4)]
  have "0 < stableRequired (fst (onSample x s))"
    using Cons.prems(4) by (simp add: onSample_config)
  from Cons.IH [OF rest st(1) st(2) this] st show ?case
    by simp
qed

subsection \<open>The configuration of a reachable service\<close>

text \<open>The constructor takes no argument and sets the configuration fields from their
  initialisers; no method assigns them. So every reachable service has
  \<open>alpha = 0.25\<close>, enter threshold -0.6, exit threshold -0.2 and
  \<open>stableRequired = 3\<close>: the thresholds are never crossed and \<open>stableRequired\<close> is
  never 0 or negative.\<close>

lemma reachableService_configuration:
  assumes "reachableService s"
  shows "alpha s = 0.25 \<and> flipEnterThreshold s = - 0.6 \<and> flipExitThreshold s = - 0.2
     \<and> stableRequired s = 3"
  using assms
proof (induction rule: reachableService.induct)
  case (constructed p)
  show ?case
    by (simp add: OrientationService_constructor_def startListening_def startWebOrientation_def
          startMobileOrientation_def)
next
  case (registered s callback)
  then show ?case by (simp add: addCallback_def)
next
  case (removed s callback)
  then show ?case by (simp add: removeCallback_def)
next
  case (sampled s x)
  then show ?case by (simp add: onSample_config)
next
  case (destroyed s p)
  then show ?case by (simp add: destroy_def Let_def)
qed

subsection \<open>Evaluation on concrete services\<close>

lemmas eval_defs = OrientationService_constructor_def startListening_def startWebOrientation_def
  startMobileOrientation_def startWebOrientation_handler_steps startMobileOrientation_listener_steps
  updateStableCounts_def notifyIfStable_def notifyCallbacks_def emaUpdate_def motionZ_def
  addCallback_def Let_def

lemma register_all:
  "foldl (\<lambda>t callback. addCallback callback t) s cs = s\<lparr>callbacks := callbacks s @ cs\<rparr>"
  by (induction cs arbitrary: s) (simp_all add: addCallback_def)

section \<open>The publish contract\<close>

text \<open>
  Claim C1. A call of \<open>notifyCallbacks\<close> with a value equal to the published
  \<open>isFlipped\<close> changes nothing and invokes no callback. With a different value it
  sets \<open>isFlipped\<close> to the value, leaves every other field as it was, and invokes the
  registered callbacks with the value, one invocation for each entry of the callback list,
  in the order of the list; \<open>addCallback\<close> appends, so that order is the order of
  registration. Publishing the same value a second time invokes nothing.
\<close>

theorem notifyCallbacks_publish:
  "notifyCallbacks v s =
     (if v = isFlipped s then (s, [])
      else (s\<lparr>isFlipped := v\<rparr>, map (\<lambda>callback. (callback, v)) (callbacks s)))
   \<and> length (snd (notifyCallbacks (\<not> isFlipped s) s)) = length (callbacks s)
   \<and> map fst (snd (notifyCallbacks (\<not> isFlipped s) s)) = callbacks s
   \<and> notifyCallbacks v (fst (notifyCallbacks v s)) = (fst (notifyCallbacks v s), [])
   \<and> callbacks (foldl (\<lambda>t callback. addCallback callback t) s cs) = callbacks s @ cs"
proof -
  have reg: "callbacks (foldl (\<lambda>t callback. addCallback callback t) s cs) = callbacks s @ cs"
    by (simp add: register_all)
  show ?thesis
    using reg by (auto simp: notifyCallbacks_def comp_def)
qed

section \<open>The invariant of the stability counters\<close>

text \<open>
  Claim C2. Start from a service whose two stability counters are 0 and deliver any
  samples, of either kind and in any order. Afterwards at most one of
  \<open>flipStableCount\<close> and \<open>unflipStableCount\<close> is nonzero (and neither is negative), and
  one more sample either leaves a counter no larger than it was, or raises it by exactly 1
  and leaves the other counter at 0.
\<close>

theorem stable_counts_exclusive:
  assumes "flipStableCount s = 0" and "unflipStableCount s = 0"
  shows "(flipStableCount (run xs s) = 0 \<or> unflipStableCount (run xs s) = 0)
     \<and> 0 \<le> flipStableCount (run xs s) \<and> 0 \<le> unflipStableCount (run xs s)
     \<and> (flipStableCount (fst (onSample x (run xs s))) \<le> flipStableCount (run xs s)
          \<or> flipStableCount (fst (onSample x (run xs s))) = flipStableCount (run xs s) + 1
            \<and> unflipStableCount (fst (onSample x (run xs s))) = 0)
     \<and> (unflipStableCount (fst (onSample x (run xs s))) \<le> unflipStableCount (run xs s)
          \<or> unflipStableCount (fst (onSample x (run xs s))) = unflipStableCount (run xs s) + 1
            \<and> flipStableCount (fst (onSample x (run xs s))) = 0)"
proof -
  let ?t = "run xs s"
  have inv: "0 \<le> flipStableCount ?t" "0 \<le> unflipStableCount ?t"
    "flipStableCount ?t = 0 \<or> unflipStableCount ?t = 0"
    using counters_run [of s xs] assms by simp_all
  from counters_step [OF inv, of x] inv show ?thesis
    by blast
qed

text \<open>
  The hypotheses hold of a freshly constructed service; its first sample, a tilt of 170
  degrees, raises \<open>flipStableCount\<close> to 1 and leaves \<open>unflipStableCount\<close> at 0.
\<close>

theorem stable_counts_exclusive_witness:
  "flipStableCount (OrientationService_constructor \<lparr>osIsWeb = True, hasDeviceOrientationEvent = True\<rparr> :: nat orientation_service) = 0
   \<and> unflipStableCount (OrientationService_constructor \<lparr>osIsWeb = True, hasDeviceOrientationEvent = True\<rparr> :: nat orientation_service) = 0
   \<and> flipStableCount (fst (onSample (DeviceOrientation (Some 170))
         (run [] (OrientationService_constructor \<lparr>osIsWeb = True, hasDeviceOrientationEvent = True\<rparr> :: nat orientation_service)))) = 1
   \<and> unflipStableCount (fst (onSample (DeviceOrientation (Some 170))
         (run [] (OrientationService_constructor \<lparr>osIsWeb = True, hasDeviceOrientationEvent = True\<rparr> :: nat orientation_service)))) = 0"
proof -
  let ?s = "OrientationService_constructor \<lparr>osIsWeb = True, hasDeviceOrientationEvent = True\<rparr>
              :: nat orientation_service"
  have h1: "flipStableCount ?s = 0" and h2: "unflipStableCount ?s = 0"
    by (simp_all add: eval_defs)
  have inc: "flipStableCount (fst (onSample (DeviceOrientation (Some 170)) (run [] ?s))) = 1"
    by (simp add: eval_defs)
  from stable_counts_exclusive [OF h1 h2, of "[]" "DeviceOrientation (Some 170)"] inc h1 h2
  show ?thesis by simp
qed

section \<open>Debounce and hysteresis\<close>

text \<open>
  Claim C3. Take a service in its initial detector state (nothing published, both
  counters 0, the filter still unset) with \<open>stableRequired = n > 0\<close>, and a sample that
  satisfies the enter condition there. Delivering the sample \<open>n\<close> times invokes nothing
  on the first \<open>n - 1\<close> deliveries and, on the \<open>n\<close>-th, invokes each registered callback
  once with \<open>True\<close>: one notification. The published state is then \<open>True\<close>, and any
  number \<open>k\<close> of further deliveries of the same sample invokes nothing.
\<close>

theorem stable_enter_publishes_once:
  assumes "0 < n" "stableRequired s = int n" "\<not> isFlipped s"
    "flipStableCount s = 0" "unflipStableCount s = 0" "emaZ s = None"
    "enterCondition x s"
  shows "trace (replicate n x) s
           = replicate (n - 1) [] @ [map (\<lambda>callback. (callback, True)) (callbacks s)]
     \<and> concat (trace (replicate n x) s) = map (\<lambda>callback. (callback, True)) (callbacks s)
     \<and> isFlipped (run (replicate n x) s)
     \<and> trace (replicate k x) (run (replicate n x) s) = replicate k []"
proof -
  let ?t = "run (replicate (n - 1) x) s"
  let ?u = "fst (onSample x ?t)"
  have settled: "emaSettled x s"
    using assms(6) by (cases x) (simp_all split: option.splits)
  have pos: "0 < stableRequired s"
    using assms(1,2) by simp
  have lt: "flipStableCount s + int (n - 1) < stableRequired s"
    using assms(1,2,4) by simp
  note below = enter_run_below [OF assms(7) settled assms(3) pos lt]
  have split: "replicate n x = replicate (n - 1) x @ [x]"
    using assms(1) by (cases n) (simp_all add: replicate_append_same)
  have tpos: "0 < stableRequired ?t"
    using pos by (simp add: run_config)
  have tenter: "enterCondition x ?t"
    using below by simp
  have reached: "stableRequired ?t \<le> flipStableCount ?t + 1"
    using below assms(1,2,4) by (simp add: run_config)
  have tnot: "\<not> isFlipped ?t"
    using below by simp
  have tcb: "callbacks ?t = callbacks s"
    by (rule run_config)
  have last_out: "snd (onSample x ?t) = map (\<lambda>callback. (callback, True)) (callbacks s)"
    using enter_step(4) [OF tenter tpos] reached tnot tcb by simp
  have u_flipped: "isFlipped ?u"
    using enter_step(3) [OF tenter tpos] reached by simp
  have u_ok: "enterCondition x ?u" "emaSettled x ?u"
    using enter_settled [of x ?t] below by simp_all
  have upos: "0 < stableRequired ?u"
    using tpos by (simp add: onSample_config)
  have run_n: "run (replicate n x) s = ?u"
    by (subst split) (simp add: run_append)
  have tr: "trace (replicate n x) s
      = replicate (n - 1) [] @ [map (\<lambda>callback. (callback, True)) (callbacks s)]"
    using below last_out by (subst split) (simp add: trace_append)
  have "concat (trace (replicate n x) s) = map (\<lambda>callback. (callback, True)) (callbacks s)"
    by (simp add: tr)
  moreover have "trace (replicate k x) (run (replicate n x) s) = replicate k []"
    unfolding run_n by (rule enter_run_flipped [OF u_ok u_flipped upos])
  ultimately show ?thesis
    using tr u_flipped run_n by simp
qed

text \<open>
  The hypotheses hold of a freshly constructed mobile service with one callback and the
  acceleration sample \<open>z = -5\<close>: three deliveries invoke the callback once.
\<close>

theorem stable_enter_publishes_once_witness:
  "enterCondition
      (DeviceMotion \<lparr>accelerationIncludingGravity = Some (AccelerationData (Some (- 5))),
                     acceleration = None\<rparr>)
      (addCallback (0::nat)
         (OrientationService_constructor \<lparr>osIsWeb = False, hasDeviceOrientationEvent = False\<rparr>))
   \<and> concat (trace (replicate 3
        (DeviceMotion \<lparr>accelerationIncludingGravity = Some (AccelerationData (Some (- 5))),
                     acceleration = None\<rparr>))
      (addCallback (0::nat)
         (OrientationService_constructor \<lparr>osIsWeb = False, hasDeviceOrientationEvent = False\<rparr>)))
     = [(0, True)]"
proof -
  let ?s = "addCallback (0::nat)
         (OrientationService_constructor \<lparr>osIsWeb = False, hasDeviceOrientationEvent = False\<rparr>)"
  let ?x = "DeviceMotion \<lparr>accelerationIncludingGravity = Some (AccelerationData (Some (- 5))),
                     acceleration = None\<rparr>"
  have h1: "0 < (3::nat)"
    by simp
  have h2: "stableRequired ?s = int 3" and h3: "\<not> isFlipped ?s"
    and h4: "flipStableCount ?s = 0" and h5: "unflipStableCount ?s = 0"
    and h6: "emaZ ?s = None"
    by (simp_all add: eval_defs)
  have h7: "enterCondition ?x ?s"
    by (simp add: eval_defs)
  have cb: "callbacks ?s = [0]"
    by (simp add: eval_defs)
  from stable_enter_publishes_once [OF h1 h2 h3 h4 h5 h6 h7, of 0]
  have "concat (trace (replicate 3 ?x) ?s) = map (\<lambda>callback. (callback, True)) (callbacks ?s)"
    by blast
  then have "concat (trace (replicate 3 ?x) ?s) = [(0, True)]"
    unfolding cb by simp
  with h7 show ?thesis
    by (rule conjI)
qed

text \<open>
  Claim C4. Start from a service with both counters 0 and \<open>stableRequired > 0\<close>, and
  deliver samples whose classified values all lie strictly between the exit and the enter
  threshold. No callback is invoked, the published state stays as it was, and both counters
  stay 0, below \<open>stableRequired\<close>. In any state, a dead-zone sample only lowers each counter
  by 1, never below 0.
\<close>

theorem dead_zone_never_publishes:
  assumes "allInDeadZone xs s" and "flipStableCount s = 0" and "unflipStableCount s = 0"
    and "0 < stableRequired s" and "inDeadZone x t"
  shows "trace xs s = replicate (length xs) []
     \<and> isFlipped (run xs s) = isFlipped s
     \<and> flipStableCount (run xs s) = 0 \<and> unflipStableCount (run xs s) = 0
     \<and> flipStableCount (run xs s) < stableRequired (run xs s)
     \<and> unflipStableCount (run xs s) < stableRequired (run xs s)
     \<and> flipStableCount (fst (onSample x t)) = max 0 (flipStableCount t - 1)
     \<and> unflipStableCount (fst (onSample x t)) = max 0 (unflipStableCount t - 1)"
proof -
  note r = dead_run [OF assms(1-4)]
  have "stableRequired (run xs s) = stableRequired s"
    by (rule run_config)
  with r assms(4) dead_decay [OF assms(5)] show ?thesis
    by simp
qed

text \<open>
  The hypotheses hold of a freshly constructed web service with one callback and the two
  tilt samples 90 and -100 degrees.
\<close>

theorem dead_zone_never_publishes_witness:
  "allInDeadZone [DeviceOrientation (Some 90), DeviceOrientation (Some (- 100))]
      (addCallback (0::nat)
         (OrientationService_constructor \<lparr>osIsWeb = True, hasDeviceOrientationEvent = True\<rparr>))
   \<and> trace [DeviceOrientation (Some 90), DeviceOrientation (Some (- 100))]
      (addCallback (0::nat)
         (OrientationService_constructor \<lparr>osIsWeb = True, hasDeviceOrientationEvent = True\<rparr>))
     = [[], []]"
proof -
  let ?s = "addCallback (0::nat)
         (OrientationService_constructor \<lparr>osIsWeb = True, hasDeviceOrientationEvent = True\<rparr>)"
  let ?xs = "[DeviceOrientation (Some 90), DeviceOrientation (Some (- 100))]"
  have h1: "allInDeadZone ?xs ?s"
    by simp
  have h2: "flipStableCount ?s = 0" and h3: "unflipStableCount ?s = 0"
    and h4: "0 < stableRequired ?s"
    by (simp_all add: eval_defs)
  have h5: "inDeadZone (DeviceOrientation (Some 90)) ?s"
    by simp
  from dead_zone_never_publishes [OF h1 h2 h3 h4 h5] have "trace ?xs ?s = replicate (length ?xs) []"
    by (rule conjunct1)
  then have "trace ?xs ?s = [[], []]"
    by (simp del: trace.simps)
  with h1 show ?thesis
    by (rule conjI)
qed

section \<open>Scenarios\<close>

text \<open>
  Claim C5. A web service as constructed (\<open>stableRequired = 3\<close>, enter above 150
  degrees, exit below 30 degrees), with any callbacks \<open>cs\<close> registered, receives the
  tilts 170, 172, 175, 10, 12, 5. The third sample invokes every callback with \<open>True\<close>,
  the sixth invokes every callback with \<open>False\<close>, and the other four invoke nothing.
\<close>

theorem scenario_A:
  "trace (map (\<lambda>b. DeviceOrientation (Some b)) [170, 172, 175, 10, 12, 5])
     (foldl (\<lambda>t callback. addCallback callback t)
        (OrientationService_constructor \<lparr>osIsWeb = True, hasDeviceOrientationEvent = True\<rparr>) cs)
   = [[], [], map (\<lambda>callback. (callback, True)) cs,
      [], [], map (\<lambda>callback. (callback, False)) cs]"
proof -
  define S :: "bool \<Rightarrow> int \<Rightarrow> int \<Rightarrow> 'a orientation_service" where
    "S f c d = \<lparr>callbacks = cs, isFlipped = f, subscription = False,
        webOrientationHandler = True, emaZ = None, alpha = 0.25, flipEnterThreshold = - 0.6,
        flipExitThreshold = - 0.2, stableRequired = 3, flipStableCount = c,
        unflipStableCount = d\<rparr>" for f c d
  have start: "foldl (\<lambda>t callback. addCallback callback t)
        (OrientationService_constructor \<lparr>osIsWeb = True, hasDeviceOrientationEvent = True\<rparr>) cs
      = S False 0 0"
    by (simp add: register_all S_def OrientationService_constructor_def startListening_def
          startWebOrientation_def)
  have 1: "onSample (DeviceOrientation (Some 170)) (S False 0 0) = (S False 1 0, [])"
    by (simp add: S_def eval_defs)
  have 2: "onSample (DeviceOrientation (Some 172)) (S False 1 0) = (S False 2 0, [])"
    by (simp add: S_def eval_defs)
  have 3: "onSample (DeviceOrientation (Some 175)) (S False 2 0)
      = (S True 3 0, map (\<lambda>callback. (callback, True)) cs)"
    by (simp add: S_def eval_defs)
  have 4: "onSample (DeviceOrientation (Some 10)) (S True 3 0) = (S True 0 1, [])"
    by (simp add: S_def eval_defs)
  have 5: "onSample (DeviceOrientation (Some 12)) (S True 0 1) = (S True 0 2, [])"
    by (simp add: S_def eval_defs)
  have 6: "onSample (DeviceOrientation (Some 5)) (S True 0 2)
      = (S False 0 3, map (\<lambda>callback. (callback, False)) cs)"
    by (simp add: S_def eval_defs)
  show ?thesis
    unfolding start by (simp add: 1 2 3 4 5 6 del: onSample.simps)
qed

text \<open>
  Claim C6, as the code has it. A mobile service as constructed (\<open>alpha = 0.25\<close>, enter
  below -0.6, exit above -0.2, \<open>stableRequired = 3\<close>), with any callbacks \<open>cs\<close>
  registered, receives the acceleration \<open>z = -5\<close> three times. The filter is set to the
  first sample, so it reads -5 after each of the three samples. From a service whose filter
  reads 0 instead, the same samples take the filter strictly down, to -1.25, -2.1875 and
  -2.890625. In both cases the filtered value is below the enter threshold at every sample,
  and the third sample, and only the third, invokes every callback with \<open>True\<close>.
\<close>

theorem scenario_B:
  "map (\<lambda>j. emaZ (run (replicate j
          (DeviceMotion \<lparr>accelerationIncludingGravity = Some (AccelerationData (Some (- 5))),
                          acceleration = None\<rparr>))
          (foldl (\<lambda>t callback. addCallback callback t)
             (OrientationService_constructor \<lparr>osIsWeb = False, hasDeviceOrientationEvent = False\<rparr>)
             cs))) [1, 2, 3]
     = [Some (- 5), Some (- 5), Some (- 5)]
   \<and> trace (replicate 3
          (DeviceMotion \<lparr>accelerationIncludingGravity = Some (AccelerationData (Some (- 5))),
                          acceleration = None\<rparr>))
          (foldl (\<lambda>t callback. addCallback callback t)
             (OrientationService_constructor \<lparr>osIsWeb = False, hasDeviceOrientationEvent = False\<rparr>)
             cs)
     = [[], [], map (\<lambda>callback. (callback, True)) cs]
   \<and> map (\<lambda>j. emaZ (run (replicate j
          (DeviceMotion \<lparr>accelerationIncludingGravity = Some (AccelerationData (Some (- 5))),
                          acceleration = None\<rparr>))
          ((foldl (\<lambda>t callback. addCallback callback t)
             (OrientationService_constructor \<lparr>osIsWeb = False, hasDeviceOrientationEvent = False\<rparr>)
             cs)\<lparr>emaZ := Some 0\<rparr>))) [1, 2, 3]
     = [Some (- (5 / 4)), Some (- (35 / 16)), Some (- (185 / 64))]
   \<and> trace (replicate 3
          (DeviceMotion \<lparr>accelerationIncludingGravity = Some (AccelerationData (Some (- 5))),
                          acceleration = None\<rparr>))
          ((foldl (\<lambda>t callback. addCallback callback t)
             (OrientationService_constructor \<lparr>osIsWeb = False, hasDeviceOrientationEvent = False\<rparr>)
             cs)\<lparr>emaZ := Some 0\<rparr>)
     = [[], [], map (\<lambda>callback. (callback, True)) cs]"
proof -
  define M :: "bool \<Rightarrow> real option \<Rightarrow> int \<Rightarrow> 'a orientation_service" where
    "M f e c = \<lparr>callbacks = cs, isFlipped = f, subscription = True,
        webOrientationHandler = False, emaZ = e, alpha = 0.25, flipEnterThreshold = - 0.6,
        flipExitThreshold = - 0.2, stableRequired = 3, flipStableCount = c,
        unflipStableCount = 0\<rparr>" for f e c
  define x where "x = DeviceMotion
     \<lparr>accelerationIncludingGravity = Some (AccelerationData (Some (- 5))), acceleration = None\<rparr>"
  have start: "foldl (\<lambda>t callback. addCallback callback t)
        (OrientationService_constructor \<lparr>osIsWeb = False, hasDeviceOrientationEvent = False\<rparr>) cs
      = M False None 0"
    by (simp add: register_all M_def OrientationService_constructor_def startListening_def
          startMobileOrientation_def)
  have start0: "(M False None 0)\<lparr>emaZ := Some 0\<rparr> = M False (Some 0) 0"
    by (simp add: M_def)
  have a1: "onSample x (M False None 0) = (M False (Some (- 5)) 1, [])"
    by (simp add: x_def M_def eval_defs)
  have a2: "onSample x (M False (Some (- 5)) 1) = (M False (Some (- 5)) 2, [])"
    by (simp add: x_def M_def eval_defs)
  have a3: "onSample x (M False (Some (- 5)) 2)
      = (M True (Some (- 5)) 3, map (\<lambda>callback. (callback, True)) cs)"
    by (simp add: x_def M_def eval_defs)
  have b1: "onSample x (M False (Some 0) 0) = (M False (Some (- (5 / 4))) 1, [])"
    by (simp add: x_def M_def eval_defs)
  have b2: "onSample x (M False (Some (- (5 / 4))) 1) = (M False (Some (- (35 / 16))) 2, [])"
    by (simp add: x_def M_def eval_defs)
  have b3: "onSample x (M False (Some (- (35 / 16))) 2)
      = (M True (Some (- (185 / 64))) 3, map (\<lambda>callback. (callback, True)) cs)"
    by (simp add: x_def M_def eval_defs)
  have ema: "emaZ (M f e c) = e" for f e c
    by (simp add: M_def)
  have r3: "replicate 3 x = [x, x, x]" and r2: "replicate 2 x = [x, x]"
    by (simp_all add: numeral_3_eq_3 numeral_2_eq_2)
  show ?thesis
    unfolding start start0 x_def [symmetric]
    by (simp add: r3 r2 a1 a2 a3 b1 b2 b3 ema del: onSample.simps)
qed

text \<open>
  The filter does not read about -1.95 after the three samples: it reads -5 from the
  constructed service, and -2.890625 from a service whose filter reads 0, which is more
  than 0.9 away from -1.95.
\<close>

theorem scenario_B_counterexample:
  "emaZ (run (replicate 3
          (DeviceMotion \<lparr>accelerationIncludingGravity = Some (AccelerationData (Some (- 5))),
                          acceleration = None\<rparr>))
          (OrientationService_constructor \<lparr>osIsWeb = False, hasDeviceOrientationEvent = False\<rparr>
             :: nat orientation_service)) = Some (- 5)
   \<and> emaZ (run (replicate 3
          (DeviceMotion \<lparr>accelerationIncludingGravity = Some (AccelerationData (Some (- 5))),
                          acceleration = None\<rparr>))
          ((OrientationService_constructor \<lparr>osIsWeb = False, hasDeviceOrientationEvent = False\<rparr>
             :: nat orientation_service)\<lparr>emaZ := Some 0\<rparr>)) = Some (- (185 / 64))
   \<and> (9 / 10 :: real) < \<bar>(- (185 / 64)) - (- (195 / 100))\<bar>
   \<and> (3 :: real) < \<bar>(- 5) - (- (195 / 100))\<bar>"
proof -
  define M :: "real option \<Rightarrow> int \<Rightarrow> nat orientation_service" where
    "M e c = \<lparr>callbacks = [], isFlipped = False, subscription = True,
        webOrientationHandler = False, emaZ = e, alpha = 0.25, flipEnterThreshold = - 0.6,
        flipExitThreshold = - 0.2, stableRequired = 3, flipStableCount = c,
        unflipStableCount = 0\<rparr>" for e c
  define x where "x = DeviceMotion
     \<lparr>accelerationIncludingGravity = Some (AccelerationData (Some (- 5))), acceleration = None\<rparr>"
  have start: "(OrientationService_constructor \<lparr>osIsWeb = False, hasDeviceOrientationEvent = False\<rparr>
             :: nat orientation_service) = M None 0"
    by (simp add: M_def OrientationService_constructor_def startListening_def
          startMobileOrientation_def)
  have start0: "(M None 0)\<lparr>emaZ := Some 0\<rparr> = M (Some 0) 0"
    by (simp add: M_def)
  have a1: "fst (onSample x (M None 0)) = M (Some (- 5)) 1"
    by (simp add: x_def M_def eval_defs)
  have a2: "fst (onSample x (M (Some (- 5)) 1)) = M (Some (- 5)) 2"
    by (simp add: x_def M_def eval_defs)
  have a3: "emaZ (fst (onSample x (M (Some (- 5)) 2))) = Some (- 5)"
    by (simp add: x_def M_def eval_defs)
  have b1: "fst (onSample x (M (Some 0) 0)) = M (Some (- (5 / 4))) 1"
    by (simp add: x_def M_def eval_defs)
  have b2: "fst (onSample x (M (Some (- (5 / 4))) 1)) = M (Some (- (35 / 16))) 2"
    by (simp add: x_def M_def eval_defs)
  have b3: "emaZ (fst (onSample x (M (Some (- (35 / 16))) 2))) = Some (- (185 / 64))"
    by (simp add: x_def M_def eval_defs)
  have r3: "replicate 3 x = [x, x, x]"
    by (simp add: numeral_3_eq_3)
  show ?thesis
    unfolding start start0 x_def [symmetric]
    by (simp add: r3 a1 a2 a3 b1 b2 b3 del: onSample.simps)
qed

section \<open>Dropped samples\<close>

text \<open>
  Claim C8. A device-orientation event whose \<open>beta\<close> is \<^verbatim>\<open>null\<close>, and a
  device-motion event with no usable \<open>z\<close> (neither acceleration object present, or the
  object the listener picks has a \<open>z\<close> that is not a number), leave the whole service as it
  was, the filter, both counters and the published state included, and invoke no callback.
  The handlers have no failing branch.
\<close>

theorem absent_sample_dropped:
  "onSample (DeviceOrientation None) s = (s, [])
   \<and> (motionZ m = None \<longrightarrow> onSample (DeviceMotion m) s = (s, []))
   \<and> (motionZ m = None) =
       (case accelerationIncludingGravity m of
          Some a \<Rightarrow> accZ a = None
        | None \<Rightarrow> (case acceleration m of Some a \<Rightarrow> accZ a = None | None \<Rightarrow> True))"
  by (simp add: startWebOrientation_handler_steps startMobileOrientation_listener_steps motionZ_def
        split: option.splits)

text \<open>
  A motion event with neither acceleration object has no usable \<open>z\<close>; a constructed
  mobile service is unchanged by it.
\<close>

theorem absent_sample_dropped_witness:
  "motionZ \<lparr>accelerationIncludingGravity = None, acceleration = None\<rparr> = None
   \<and> onSample (DeviceMotion \<lparr>accelerationIncludingGravity = None, acceleration = None\<rparr>)
        (OrientationService_constructor \<lparr>osIsWeb = False, hasDeviceOrientationEvent = False\<rparr> :: nat orientation_service)
      = (OrientationService_constructor \<lparr>osIsWeb = False, hasDeviceOrientationEvent = False\<rparr>, [])"
proof -
  have h: "motionZ \<lparr>accelerationIncludingGravity = None, acceleration = None\<rparr> = None"
    by (simp add: motionZ_def)
  from absent_sample_dropped [of
      "OrientationService_constructor \<lparr>osIsWeb = False, hasDeviceOrientationEvent = False\<rparr> :: nat orientation_service"
      "\<lparr>accelerationIncludingGravity = None, acceleration = None\<rparr>"] h
  show ?thesis by blast
qed

section \<open>Teardown\<close>

text \<open>
  Claim C9. After \<open>destroy\<close>, from any state, samples of any kind and value that are
  still handed to the handlers invoke no callback: the callback list is empty and the
  handlers never add to it.
\<close>

theorem destroyed_service_silent:
  "trace xs (destroy p s) = replicate (length xs) []
   \<and> concat (trace xs (destroy p s)) = []
   \<and> callbacks (run xs (destroy p s)) = []"
  by (simp add: trace_no_callbacks destroy_callbacks run_config)

text \<open>
  Claim C10. \<open>destroy\<close> changes at most the fields \<open>webOrientationHandler\<close>,
  \<open>subscription\<close> and \<open>callbacks\<close>. The published \<open>isFlipped\<close> is as before, so
  \<open>getCurrentOrientation\<close> after teardown returns the value published last.
\<close>

theorem destroy_keeps_orientation:
  "isFlipped (destroy p s) = isFlipped s
   \<and> getCurrentOrientation (destroy p s) = getCurrentOrientation s
   \<and> getCurrentOrientation (destroy p (run xs s)) = isFlipped (run xs s)
   \<and> destroy p s = s\<lparr>webOrientationHandler := webOrientationHandler (destroy p s),
                      subscription := subscription (destroy p s), callbacks := []\<rparr>"
  by (simp add: destroy_def getCurrentOrientation_def Let_def)

end
